theory Spec2Isabelle
  imports Complex_Main
begin

section \<open>Rating progression and plateau detection (chess.com\_API.py)\<close>

text \<open>
  The analysis part of \<^verbatim>\<open>chess.com_API.py\<close>: the construction of the rating
  history from the raw game records (\<^verbatim>\<open>analyze_rating_progression\<close>, lines 70-109),
  the derived columns (lines 122-127), \<^verbatim>\<open>find_rating_plateaus\<close> and
  \<^verbatim>\<open>calculate_progress_metrics\<close>. The HTTP requests, the delays, the printing and
  the plotting are not part of the model.

  Conventions of the model.
  \<^item> A Python exception is a value of \<open>error\<close>; a function that can raise returns
    \<open>error + 'a\<close>, with \<open>Inl\<close> for the exception.
  \<^item> A float column of the DataFrame is a list of \<open>rat option\<close>: \<open>None\<close> is NaN, and
    the arithmetic is exact. Every float the program computes is a sum of integer
    ratings or such a sum divided by a count, so that the exact value and the double
    agree on every comparison the program makes as long as the sums stay below
    \<open>2 ^ 53\<close>.
  \<^item> Ratings are integers (\<open>int\<close>); the 64-bit integers of the DataFrame are taken
    not to overflow on them.
  \<^item> A date (a naive local \<^verbatim>\<open>datetime\<close>) is an \<open>int\<close>. The conversion
    \<^verbatim>\<open>datetime.fromtimestamp\<close> depends on the platform and its time zone, and raises
    for a time stamp out of its range: it is a parameter \<open>fromtimestamp\<close> of the
    functions that call it, of type \<open>int \<Rightarrow> error + int\<close>.
\<close>

subsection \<open>Raw game records and the rating history\<close>

datatype error = ValueError | IndexError | OverflowError | OSError

record player =
  username :: string
  rating :: int

record game =
  end_time :: int
  white :: player
  black :: player
  time_control :: string

text \<open>
  \<^verbatim>\<open>str.lower()\<close> on the ASCII letters; the user names of the service are ASCII
  (letters, digits, underscore and hyphen).
\<close>

definition lower_char :: "char \<Rightarrow> char" where
  "lower_char c =
     (let n = (of_char c :: nat)
      in if 65 \<le> n \<and> n \<le> 90 then char_of (n + 32) else c)"

definition lower :: "string \<Rightarrow> string" where
  "lower s = map lower_char s"

record rating_record =
  date :: int
  rating :: int
  time_control :: string

text \<open>
  Lines 91-102, the body of the loop over the games of an archive. Line 91 raises when
  the end time cannot be converted, before a rating is looked at. Otherwise the rating
  is the white side's when the white user name is the queried one, and the black
  side's in every other case.
\<close>

definition rating_entry ::
  "(int \<Rightarrow> error + int) \<Rightarrow> string \<Rightarrow> game \<Rightarrow> error + rating_record" where
  "rating_entry fromtimestamp uname g =
     (case fromtimestamp (end_time g) of
        Inl e \<Rightarrow> Inl e
      | Inr d \<Rightarrow>
          (let r = (if lower (username (white g)) = lower uname
                    then player.rating (white g)
                    else player.rating (black g))
           in Inr \<lparr>date = d, rating = r, time_control = game.time_control g\<rparr>))"

text \<open>
  Lines 74-109 for the games of one archive: the loop of line 90 stands inside the
  \<^verbatim>\<open>try\<close> of line 74, and \<^verbatim>\<open>except Exception\<close> of line 108 catches what its body
  raises. The entries appended so far stay in the rating history, the games after the
  one that raised get no entry, and the function goes on with the next archive.
\<close>

fun archive_history ::
  "(int \<Rightarrow> error + int) \<Rightarrow> string \<Rightarrow> game list \<Rightarrow> rating_record list" where
  "archive_history fromtimestamp uname [] = []"
| "archive_history fromtimestamp uname (g # monthly_games) =
     (case rating_entry fromtimestamp uname g of
        Inl e \<Rightarrow> []
      | Inr entry \<Rightarrow> entry # archive_history fromtimestamp uname monthly_games)"

text \<open>
  Lines 70-109: the rating history after the loop over the archives, given the lists
  of games of the archives whose request succeeded, in their order.
\<close>

definition rating_history ::
  "(int \<Rightarrow> error + int) \<Rightarrow> string \<Rightarrow> game list list \<Rightarrow> rating_record list" where
  "rating_history fromtimestamp uname archives =
     concat (map (archive_history fromtimestamp uname) archives)"

subsection \<open>Columns of the DataFrame\<close>

text \<open>
  \<^verbatim>\<open>Series.diff()\<close>: the difference to the previous row, NaN in the first row.
\<close>

fun diff :: "int list \<Rightarrow> rat option list" where
  "diff [] = []"
| "diff (x # xs) = None # map2 (\<lambda>a b. Some (of_int (b - a))) (x # xs) xs"

text \<open>
  \<^verbatim>\<open>Series.rolling(window=w).mean()\<close> of pandas, with its defaults: a trailing window
  of \<open>w\<close> rows that ends at the current row, cut at the start of the column, and
  \<^verbatim>\<open>min_periods = w\<close>. The observations of a window are its values other than NaN;
  the result is their mean when there are at least \<open>min_periods\<close> of them and at least
  one, and NaN otherwise. A negative window is refused with \<^verbatim>\<open>ValueError\<close> (``window
  must be an integer 0 or greater''); the window \<open>0\<close> is accepted.
\<close>

fun defined_values :: "'a option list \<Rightarrow> 'a list" where
  "defined_values [] = []"
| "defined_values (None # xs) = defined_values xs"
| "defined_values (Some x # xs) = x # defined_values xs"

definition window_values :: "nat \<Rightarrow> 'a list \<Rightarrow> nat \<Rightarrow> 'a list" where
  "window_values w xs i = take (Suc i - (Suc i - w)) (drop (Suc i - w) xs)"

definition window_mean :: "nat \<Rightarrow> rat option list \<Rightarrow> nat \<Rightarrow> rat option" where
  "window_mean w xs i =
     (let obs = defined_values (window_values w xs i);
          nobs = length obs
      in if w \<le> nobs \<and> 0 < nobs then Some (sum_list obs / of_nat nobs) else None)"

definition rolling_mean :: "int \<Rightarrow> rat option list \<Rightarrow> error + rat option list" where
  "rolling_mean window xs =
     (if window < 0 then Inl ValueError
      else Inr (map (window_mean (nat window) xs) [0..<length xs]))"

text \<open>
  A row of the DataFrame that \<^verbatim>\<open>analyze_rating_progression\<close> returns: the three
  columns of the rating history and the four columns of lines 122-127. All columns of a
  DataFrame have the same length, so the columns are kept row by row.
\<close>

record row = rating_record +
  rating_change :: "rat option"
  games_played :: int
  rolling_rating :: "rat option"
  rating_change_rate :: "rat option"

text \<open>
  The DataFrame passed to \<^verbatim>\<open>find_rating_plateaus\<close>: the rows above and the column
  \<^verbatim>\<open>rolling_change\<close>, which is absent (\<open>None\<close>) until the function adds it.
\<close>

record frame =
  rows :: "row list"
  rolling_change :: "rat option list option"

text \<open>
  Lines 122-127, on the rating history in the order in which line 121 leaves it. Line
  121 is \<^verbatim>\<open>df.sort_values('date')\<close> with the default \<^verbatim>\<open>kind='quicksort'\<close>; the sort
  algorithm belongs to the library and is not modelled. The window \<open>20\<close> is not
  negative, so \<^verbatim>\<open>rolling\<close> cannot raise here.
\<close>

definition derive_columns :: "rating_record list \<Rightarrow> error + frame" where
  "derive_columns sorted_history =
     (let ratings = map rating sorted_history;
          changes = diff ratings;
          n = length sorted_history
      in case rolling_mean 20 (map (\<lambda>r. Some (of_int r)) ratings) of
           Inl e \<Rightarrow> Inl e
         | Inr rr \<Rightarrow>
             (case rolling_mean 20 changes of
                Inl e \<Rightarrow> Inl e
              | Inr rate \<Rightarrow>
                  Inr \<lparr>rows = map (\<lambda>i. \<lparr>date = date (sorted_history ! i),
                                         rating = rating (sorted_history ! i),
                                         time_control = time_control (sorted_history ! i),
                                         rating_change = changes ! i,
                                         games_played = int i,
                                         rolling_rating = rr ! i,
                                         rating_change_rate = rate ! i\<rparr>) [0..<n],
                       rolling_change = None\<rparr>))"

subsection \<open>The plateau detector\<close>

text \<open>
  The dictionary \<^verbatim>\<open>current_plateau\<close> and the dictionaries appended to
  \<^verbatim>\<open>plateaus\<close>.
\<close>

record current_plateau =
  cur_start_rating :: int
  cur_start_game :: int
  cur_start_date :: int

record plateau =
  start_rating :: int
  end_rating :: int
  games_span :: int
  start_game_number :: int
  end_game_number :: int
  start_date :: int
  end_date :: int

text \<open>
  Line 173, \<^verbatim>\<open>abs(row['rolling_change']) < threshold\<close>: a comparison with NaN is false.
\<close>

definition below_threshold :: "rat \<Rightarrow> rat option \<Rightarrow> bool" where
  "below_threshold threshold rc =
     (case rc of None \<Rightarrow> False | Some v \<Rightarrow> \<bar>v\<bar> < threshold)"

text \<open>Lines 175-179, the dictionary stored when a plateau is opened at a row.\<close>

definition open_plateau :: "row \<Rightarrow> current_plateau" where
  "open_plateau r =
     \<lparr>cur_start_rating = rating r,
      cur_start_game = games_played r,
      cur_start_date = date r\<rparr>"

text \<open>Lines 181-190, the dictionary appended when the open plateau is closed at a row.\<close>

definition closed_plateau :: "current_plateau \<Rightarrow> row \<Rightarrow> plateau" where
  "closed_plateau c r =
     \<lparr>start_rating = cur_start_rating c,
      end_rating = rating r,
      games_span = games_played r - cur_start_game c,
      start_game_number = cur_start_game c,
      end_game_number = games_played r,
      start_date = cur_start_date c,
      end_date = date r\<rparr>"

text \<open>
  Lines 173-191, one round of the loop over the rows, on the state
  \<open>(current_plateau, plateaus)\<close>. A dictionary with three keys is true, \<^verbatim>\<open>None\<close> is
  false.
\<close>

definition plateau_step ::
  "rat \<Rightarrow> current_plateau option \<times> plateau list \<Rightarrow> row \<times> rat option
     \<Rightarrow> current_plateau option \<times> plateau list" where
  "plateau_step threshold st x =
     (case (st, x) of ((cur, plateaus), (r, rc)) \<Rightarrow>
        if below_threshold threshold rc then
          (case cur of
             None \<Rightarrow> (Some (open_plateau r), plateaus)
           | Some c \<Rightarrow> (cur, plateaus))
        else
          (case cur of
             Some c \<Rightarrow> (None, plateaus @ [closed_plateau c r])
           | None \<Rightarrow> (cur, plateaus)))"

text \<open>
  \<^verbatim>\<open>find_rating_plateaus(df, window, threshold)\<close>. Line 168 raises before anything is
  written when the window is negative; otherwise it stores the column
  \<^verbatim>\<open>rolling_change\<close> in the caller's DataFrame, so that the frame is returned with the
  list of plateaus. The loop runs over the rows in their order, each with its value of
  the new column.
\<close>

definition find_rating_plateaus ::
  "frame \<Rightarrow> int \<Rightarrow> rat \<Rightarrow> error + frame \<times> plateau list" where
  "find_rating_plateaus df window threshold =
     (case rolling_mean window (map rating_change (rows df)) of
        Inl e \<Rightarrow> Inl e
      | Inr rc \<Rightarrow>
          (let df' = df\<lparr>rolling_change := Some rc\<rparr>
           in Inr (df', snd (foldl (plateau_step threshold) (None, [])
                                   (zip (rows df') rc)))))"

subsection \<open>The progress metrics\<close>

record metrics =
  total_games :: nat
  initial_rating :: int
  final_rating :: int
  total_gain :: int
  average_gain_per_game :: rat
  max_rating :: int
  min_rating :: int
  rating_volatility :: "real option"

text \<open>
  \<^verbatim>\<open>Series.std()\<close>: the sample standard deviation (\<^verbatim>\<open>ddof=1\<close>), NaN for fewer than
  two values.
\<close>

definition std :: "int list \<Rightarrow> real option" where
  "std xs =
     (let n = length xs;
          m = (of_int (sum_list xs) :: real) / of_nat n
      in if n < 2 then None
         else Some (sqrt (sum_list (map (\<lambda>x. (of_int x - m)\<^sup>2) xs) / of_nat (n - 1))))"

text \<open>
  \<^verbatim>\<open>calculate_progress_metrics(df)\<close>. On a DataFrame without rows \<^verbatim>\<open>iloc[0]\<close> raises
  \<^verbatim>\<open>IndexError\<close>; \<^verbatim>\<open>/\<close> is the true division.
\<close>

definition calculate_progress_metrics :: "frame \<Rightarrow> error + metrics" where
  "calculate_progress_metrics df =
     (let ratings = map rating (rows df)
      in if ratings = [] then Inl IndexError
         else Inr \<lparr>total_games = length (rows df),
                   initial_rating = hd ratings,
                   final_rating = last ratings,
                   total_gain = last ratings - hd ratings,
                   average_gain_per_game =
                     of_int (last ratings - hd ratings) / of_nat (length (rows df)),
                   max_rating = Max (set ratings),
                   min_rating = Min (set ratings),
                   rating_volatility = std ratings\<rparr>)"

subsection \<open>A frame for the instances\<close>

text \<open>
  Four rows with the rating changes NaN, 1, 9, 1. With the window 1 and the threshold 3
  the second row opens a plateau, the third row closes it, and the fourth row opens a
  plateau that no later row closes.
\<close>

definition example_frame :: frame where
  "example_frame =
     \<lparr>rows =
        [\<lparr>date = 10, rating = 1000, time_control = ''600'', rating_change = None,
          games_played = 0, rolling_rating = None, rating_change_rate = None\<rparr>,
         \<lparr>date = 20, rating = 1001, time_control = ''600'', rating_change = Some 1,
          games_played = 1, rolling_rating = None, rating_change_rate = None\<rparr>,
         \<lparr>date = 30, rating = 1010, time_control = ''600'', rating_change = Some 9,
          games_played = 2, rolling_rating = None, rating_change_rate = None\<rparr>,
         \<lparr>date = 40, rating = 1011, time_control = ''600'', rating_change = Some 1,
          games_played = 3, rolling_rating = None, rating_change_rate = None\<rparr>],
      rolling_change = None\<rparr>"

definition example_plateau :: plateau where
  "example_plateau =
     \<lparr>start_rating = 1001, end_rating = 1010, games_span = 1, start_game_number = 1,
      end_game_number = 2, start_date = 20, end_date = 30\<rparr>"

section \<open>Properties\<close>

subsection \<open>Rolling means\<close>

lemma defined_values_map_Some: "defined_values (map Some xs) = xs"
  by (induction xs) simp_all

lemma length_window_values:
  "i < length xs \<Longrightarrow> length (window_values w xs i) = min w (Suc i)"
  by (auto simp: window_values_def)

lemma window_values_map: "window_values w (map f xs) i = map f (window_values w xs i)"
  by (simp add: window_values_def take_map drop_map)

lemma window_mean_None_iff:
  "window_mean w xs i = None \<longleftrightarrow>
     \<not> (w \<le> length (defined_values (window_values w xs i)) \<and>
        0 < length (defined_values (window_values w xs i)))"
  unfolding window_mean_def Let_def by auto

text \<open>On a column without NaN the window is full from the row \<open>w - 1\<close> on.\<close>

lemma window_mean_all_defined:
  assumes "i < length xs"
  shows "window_mean w (map Some xs) i = None \<longleftrightarrow> w = 0 \<or> i < w - 1"
proof -
  have "length (defined_values (window_values w (map Some xs) i)) = min w (Suc i)"
    using assms by (simp add: window_values_map defined_values_map_Some length_window_values)
  then show ?thesis
    unfolding window_mean_None_iff by auto
qed

lemma diff_Cons:
  "diff (x # xs) = None # map Some (map2 (\<lambda>a b. of_int (b - a)) (x # xs) xs)"
  by (simp add: case_prod_beta)

lemma length_diff: "length (diff xs) = length xs"
  by (cases xs) simp_all

text \<open>
  On a column whose first value only is NaN, a window that reaches the first row has
  one observation less than rows.
\<close>

lemma window_values_None_Cons:
  assumes "i < Suc (length ys)"
  shows "length (defined_values (window_values w (None # map Some ys) i)) =
     (if i < w then i else w)"
proof (cases "i < w")
  case True
  then have "window_values w (None # map Some ys) i = None # map Some (take i ys)"
    using assms by (simp add: window_values_def take_map)
  then show ?thesis
    using True assms by (simp add: defined_values_map_Some)
next
  case False
  then obtain k where k: "Suc i - w = Suc k" "k = i - w"
    by (metis Suc_diff_le not_less)
  have "window_values w (None # map Some ys) i = map Some (take w (drop k ys))"
    using False assms k by (simp add: window_values_def take_map drop_map)
  then show ?thesis
    using False assms k by (simp add: defined_values_map_Some)
qed

lemma window_mean_diff:
  assumes "i < length rs"
  shows "window_mean w (diff rs) i = None \<longleftrightarrow> w = 0 \<or> i < w"
proof -
  obtain x xs where rs: "rs = x # xs"
    using assms by (cases rs) auto
  let ?ds = "map2 (\<lambda>a b. (of_int (b - a) :: rat)) (x # xs) xs"
  have len: "length ?ds = length xs" by simp
  have "length (defined_values (window_values w (diff rs) i)) = (if i < w then i else w)"
    unfolding rs diff_Cons using assms rs window_values_None_Cons [of i ?ds w]
    by (simp only: len) simp
  then show ?thesis
    unfolding window_mean_None_iff by auto
qed

lemma length_rolling_mean: "rolling_mean w xs = Inr ys \<Longrightarrow> length ys = length xs"
  by (auto simp: rolling_mean_def split: if_splits)

text \<open>
  C5. For a positive window \<open>W\<close> and any list of ratings, the rolling mean of the
  ratings is NaN exactly in the rows \<open>i < W - 1\<close>, and the rolling mean of the rating
  changes is NaN exactly in the rows \<open>i < W\<close>, one row later, since the first rating
  change is NaN. Both columns have the length of the series.
\<close>

theorem rolling_defined_from:
  assumes "0 < W"
  shows "\<exists>rr rd. rolling_mean W (map (\<lambda>r. Some (of_int r)) rs) = Inr rr \<and>
           rolling_mean W (diff rs) = Inr rd \<and>
           length rr = length rs \<and> length rd = length rs \<and>
           (\<forall>i<length rs. (rr ! i = None \<longleftrightarrow> int i < W - 1) \<and>
                          (rd ! i = None \<longleftrightarrow> int i < W))"
proof -
  let ?rr = "map (window_mean (nat W) (map (\<lambda>r. Some (of_int r)) rs)) [0..<length rs]"
  let ?rd = "map (window_mean (nat W) (diff rs)) [0..<length rs]"
  have m: "map (\<lambda>r. Some (rat_of_int r)) rs = map Some (map of_int rs)" by simp
  have "rolling_mean W (map (\<lambda>r. Some (of_int r)) rs) = Inr ?rr"
    using assms by (simp add: rolling_mean_def)
  moreover have "rolling_mean W (diff rs) = Inr ?rd"
    using assms by (simp add: rolling_mean_def length_diff)
  moreover have "(?rr ! i = None \<longleftrightarrow> int i < W - 1) \<and> (?rd ! i = None \<longleftrightarrow> int i < W)"
    if "i < length rs" for i
  proof -
    have "window_mean (nat W) (map Some (map of_int rs)) i = None
            \<longleftrightarrow> nat W = 0 \<or> i < nat W - 1"
      using that by (intro window_mean_all_defined) simp
    moreover have "window_mean (nat W) (diff rs) i = None \<longleftrightarrow> nat W = 0 \<or> i < nat W"
      using that by (rule window_mean_diff)
    ultimately show ?thesis
      using that assms by (simp only: m nth_map length_upt nth_upt) auto
  qed
  ultimately show ?thesis by (intro exI [of _ ?rr] exI [of _ ?rd]) simp
qed

theorem rolling_defined_from_witness:
  "(0::int) < 3 \<and>
   (\<exists>rr rd. rolling_mean 3 (map (\<lambda>r. Some (of_int r)) [1000, 1010, 1005, 1020]) = Inr rr \<and>
      rolling_mean 3 (diff [1000, 1010, 1005, 1020]) = Inr rd \<and>
      length rr = length [1000, 1010, 1005, 1020 :: int] \<and>
      length rd = length [1000, 1010, 1005, 1020 :: int] \<and>
      (\<forall>i<length [1000, 1010, 1005, 1020 :: int].
         (rr ! i = None \<longleftrightarrow> int i < 3 - 1) \<and> (rd ! i = None \<longleftrightarrow> int i < 3)))"
proof -
  have h: "(0::int) < 3" by simp
  show ?thesis
    by (rule conjI [OF h rolling_defined_from [OF h]])
qed

text \<open>
  Lines 126-127 use the window 20: \<open>derive_columns\<close> never fails, the moving average of
  the rating is NaN in the rows before row 19 and the rate of rating change in the rows
  before row 20.
\<close>

lemma derive_columns_rolling:
  "\<exists>df. derive_columns h = Inr df \<and> length (rows df) = length h \<and>
     (\<forall>i<length h. (rolling_rating (rows df ! i) = None \<longleftrightarrow> i < 19) \<and>
                    (rating_change_rate (rows df ! i) = None \<longleftrightarrow> i < 20) \<and>
                    rating_change (rows df ! i) = diff (map rating h) ! i)"
proof -
  let ?rs = "map rating h"
  let ?col = "map (\<lambda>r. Some (rat_of_int r)) ?rs"
  let ?rr = "map (window_mean 20 ?col) [0..<length h]"
  let ?rate = "map (window_mean 20 (diff ?rs)) [0..<length h]"
  let ?df = "\<lparr>rows = map (\<lambda>i. \<lparr>date = date (h ! i), rating = rating (h ! i),
                               time_control = time_control (h ! i),
                               rating_change = diff ?rs ! i, games_played = int i,
                               rolling_rating = ?rr ! i,
                               rating_change_rate = ?rate ! i\<rparr>) [0..<length h],
             rolling_change = None\<rparr>"
  have r1: "rolling_mean 20 ?col = Inr ?rr"
    unfolding rolling_mean_def by (simp del: map_map)
  have r2: "rolling_mean 20 (diff ?rs) = Inr ?rate"
    unfolding rolling_mean_def by (simp add: length_diff)
  have d: "derive_columns h = Inr ?df"
    unfolding derive_columns_def Let_def r1 r2 by simp
  have col: "?col = map Some (map of_int ?rs)"
    by simp
  have a: "?rr ! i = None \<longleftrightarrow> i < 19" if "i < length h" for i
  proof -
    have "window_mean 20 (map Some (map of_int ?rs)) i = None \<longleftrightarrow> i < 19"
      using that window_mean_all_defined [of i "map of_int ?rs" 20] by auto
    then have "window_mean 20 ?col i = None \<longleftrightarrow> i < 19"
      by (simp only: col)
    then show ?thesis
      using that by (simp only: nth_map length_upt nth_upt) simp
  qed
  have b: "?rate ! i = None \<longleftrightarrow> i < 20" if "i < length h" for i
    using that window_mean_diff [of i ?rs 20] by auto
  have "length (rows ?df) = length h"
    by simp
  moreover have "(rolling_rating (rows ?df ! i) = None \<longleftrightarrow> i < 19) \<and>
      (rating_change_rate (rows ?df ! i) = None \<longleftrightarrow> i < 20) \<and>
      rating_change (rows ?df ! i) = diff ?rs ! i" if "i < length h" for i
  proof -
    have "rows ?df ! i =
        \<lparr>date = date (h ! i), rating = rating (h ! i), time_control = time_control (h ! i),
         rating_change = diff ?rs ! i, games_played = int i, rolling_rating = ?rr ! i,
         rating_change_rate = ?rate ! i\<rparr>"
      using that by (simp del: map_map)
    then show ?thesis
      using a [OF that] b [OF that] by (simp only: row.simps)
  qed
  ultimately show ?thesis
    using d by blast
qed

subsection \<open>The loop of the plateau detector\<close>

lemma plateau_step_simps:
  "plateau_step t (None, ps) (r, rc) =
     (if below_threshold t rc then (Some (open_plateau r), ps) else (None, ps))"
  "plateau_step t (Some c, ps) (r, rc) =
     (if below_threshold t rc then (Some c, ps) else (None, ps @ [closed_plateau c r]))"
  by (simp_all add: plateau_step_def)

text \<open>
  The state after any number of rows: no plateau is open after a row that is not below
  the threshold; an open plateau was opened at a row from which on every row is below
  the threshold.
\<close>

lemma plateau_loop_current:
  assumes "foldl (plateau_step t) (None, []) xs = (cur, ps)"
  shows "case cur of
           None \<Rightarrow> xs = [] \<or> \<not> below_threshold t (snd (last xs))
         | Some c \<Rightarrow> \<exists>i<length xs. c = open_plateau (fst (xs ! i)) \<and>
                       (\<forall>k. i \<le> k \<and> k < length xs \<longrightarrow> below_threshold t (snd (xs ! k)))"
  using assms
proof (induction xs arbitrary: cur ps rule: rev_induct)
  case Nil
  then show ?case by simp
next
  case (snoc x xs)
  obtain cur0 ps0 where s0: "foldl (plateau_step t) (None, []) xs = (cur0, ps0)"
    by (cases "foldl (plateau_step t) (None, []) xs")
  obtain r rc where x: "x = (r, rc)" by (cases x)
  have step: "plateau_step t (cur0, ps0) (r, rc) = (cur, ps)"
    using snoc.prems s0 x by simp
  note ih = snoc.IH [OF s0]
  show ?case
  proof (cases "below_threshold t rc")
    case False
    then have "cur = None" using step by (cases cur0) (auto simp: plateau_step_simps)
    then show ?thesis using False x by simp
  next
    case True
    show ?thesis
    proof (cases cur0)
      case None
      then have "cur = Some (open_plateau r)" using step True by (simp add: plateau_step_simps)
      moreover have "\<forall>k. length xs \<le> k \<and> k < length (xs @ [x]) \<longrightarrow> below_threshold t (snd ((xs @ [x]) ! k))"
        using True x by (auto simp: nth_append)
      ultimately show ?thesis using x by (auto intro!: exI [of _ "length xs"])
    next
      case (Some c)
      then have c: "cur = Some c" using step True by (simp add: plateau_step_simps)
      from ih Some obtain i where i: "i < length xs" "c = open_plateau (fst (xs ! i))"
        "\<forall>k. i \<le> k \<and> k < length xs \<longrightarrow> below_threshold t (snd (xs ! k))" by auto
      have "\<forall>k. i \<le> k \<and> k < length (xs @ [x]) \<longrightarrow> below_threshold t (snd ((xs @ [x]) ! k))"
        using i True x by (auto simp: nth_append)
      moreover have "i < length (xs @ [x])" "c = open_plateau (fst ((xs @ [x]) ! i))"
        using i by (simp_all add: nth_append)
      ultimately show ?thesis unfolding c by (simp only: option.case) blast
    qed
  qed
qed

text \<open>
  Every plateau in the list was opened at a row \<open>i\<close> and closed at a later row \<open>j\<close>,
  the first row from \<open>i\<close> on that is not below the threshold.
\<close>

lemma plateau_loop_emitted:
  assumes "foldl (plateau_step t) (None, []) xs = (cur, ps)"
  shows "\<forall>p\<in>set ps. \<exists>i j. i < j \<and> j < length xs \<and>
           (\<forall>k. i \<le> k \<and> k < j \<longrightarrow> below_threshold t (snd (xs ! k))) \<and>
           \<not> below_threshold t (snd (xs ! j)) \<and>
           p = closed_plateau (open_plateau (fst (xs ! i))) (fst (xs ! j))"
  using assms
proof (induction xs arbitrary: cur ps rule: rev_induct)
  case Nil
  then show ?case by simp
next
  case (snoc x xs)
  obtain cur0 ps0 where s0: "foldl (plateau_step t) (None, []) xs = (cur0, ps0)"
    by (cases "foldl (plateau_step t) (None, []) xs")
  obtain r rc where x: "x = (r, rc)" by (cases x)
  have step: "plateau_step t (cur0, ps0) (r, rc) = (cur, ps)"
    using snoc.prems s0 x by simp
  have old: "\<exists>i j. i < j \<and> j < length (xs @ [x]) \<and>
           (\<forall>k. i \<le> k \<and> k < j \<longrightarrow> below_threshold t (snd ((xs @ [x]) ! k))) \<and>
           \<not> below_threshold t (snd ((xs @ [x]) ! j)) \<and>
           p = closed_plateau (open_plateau (fst ((xs @ [x]) ! i))) (fst ((xs @ [x]) ! j))"
    if "p \<in> set ps0" for p
  proof -
    from snoc.IH [OF s0] that obtain i j where ij: "i < j" "j < length xs"
      "\<forall>k. i \<le> k \<and> k < j \<longrightarrow> below_threshold t (snd (xs ! k))"
      "\<not> below_threshold t (snd (xs ! j))"
      "p = closed_plateau (open_plateau (fst (xs ! i))) (fst (xs ! j))" by blast
    then show ?thesis
      by (intro exI [of _ i] exI [of _ j]) (simp add: nth_append)
  qed
  show ?case
  proof (cases "\<not> below_threshold t rc \<and> cur0 \<noteq> None")
    case False
    then have "ps = ps0" using step
      by (cases cur0) (auto simp: plateau_step_simps split: if_splits)
    then show ?thesis using old by blast
  next
    case True
    then obtain c where c: "cur0 = Some c" by auto
    have ps: "ps = ps0 @ [closed_plateau c r]"
      using step True c by (simp add: plateau_step_simps)
    from plateau_loop_current [OF s0] c obtain i where i: "i < length xs"
      "c = open_plateau (fst (xs ! i))"
      "\<forall>k. i \<le> k \<and> k < length xs \<longrightarrow> below_threshold t (snd (xs ! k))" by auto
    have new: "\<exists>i j. i < j \<and> j < length (xs @ [x]) \<and>
           (\<forall>k. i \<le> k \<and> k < j \<longrightarrow> below_threshold t (snd ((xs @ [x]) ! k))) \<and>
           \<not> below_threshold t (snd ((xs @ [x]) ! j)) \<and>
           closed_plateau c r = closed_plateau (open_plateau (fst ((xs @ [x]) ! i))) (fst ((xs @ [x]) ! j))"
      using i True x by (intro exI [of _ i] exI [of _ "length xs"]) (simp add: nth_append)
    show ?thesis using old new ps by auto
  qed
qed

text \<open>
  The list has one plateau for each row that is not below the threshold and follows a
  row that is.
\<close>

lemma plateau_loop_count:
  assumes "foldl (plateau_step t) (None, []) xs = (cur, ps)"
  shows "length ps =
     length (filter (\<lambda>j. below_threshold t (snd (xs ! (j - 1))) \<and>
                          \<not> below_threshold t (snd (xs ! j))) [1..<length xs])"
  using assms
proof (induction xs arbitrary: cur ps rule: rev_induct)
  case Nil
  then show ?case by simp
next
  case (snoc x xs)
  obtain cur0 ps0 where s0: "foldl (plateau_step t) (None, []) xs = (cur0, ps0)"
    by (cases "foldl (plateau_step t) (None, []) xs")
  obtain r rc where x: "x = (r, rc)" by (cases x)
  have step: "plateau_step t (cur0, ps0) (r, rc) = (cur, ps)"
    using snoc.prems s0 x by simp
  let ?Q = "\<lambda>ys j. below_threshold t (snd (ys ! (j - 1))) \<and> \<not> below_threshold t (snd (ys ! j))"
  have same: "filter (?Q (xs @ [x])) [1..<length xs] = filter (?Q xs) [1..<length xs]"
    by (rule filter_cong) (auto simp: nth_append)
  have cur0: "cur0 \<noteq> None \<longleftrightarrow> xs \<noteq> [] \<and> below_threshold t (snd (last xs))"
  proof (cases cur0)
    case None
    then show ?thesis using plateau_loop_current [OF s0] by auto
  next
    case (Some c)
    then obtain i where i: "i < length xs"
      "\<forall>k. i \<le> k \<and> k < length xs \<longrightarrow> below_threshold t (snd (xs ! k))"
      using plateau_loop_current [OF s0] by auto
    then have "xs \<noteq> []" "i \<le> length xs - 1" "length xs - 1 < length xs" by auto
    then have "below_threshold t (snd (xs ! (length xs - 1)))" using i(2) by blast
    then show ?thesis using Some \<open>xs \<noteq> []\<close> by (simp add: last_conv_nth)
  qed
  show ?case
  proof (cases "xs = []")
    case True
    then have "cur0 = None" "ps0 = []" using s0 by simp_all
    then have "ps = []" using step by (auto simp: plateau_step_simps split: if_splits)
    then show ?thesis using True by simp
  next
    case False
    then have upt: "[1..<length (xs @ [x])] = [1..<length xs] @ [length xs]"
      by (cases xs) simp_all
    have lastx: "snd ((xs @ [x]) ! (length xs - 1)) = snd (last xs)"
      using False by (simp add: nth_append last_conv_nth)
    have "length ps = length ps0 + (if cur0 \<noteq> None \<and> \<not> below_threshold t rc then 1 else 0)"
      using step by (cases cur0) (auto simp: plateau_step_simps split: if_splits)
    also have "length ps0 = length (filter (?Q xs) [1..<length xs])"
      by (rule snoc.IH [OF s0])
    finally have len: "length ps = length (filter (?Q xs) [1..<length xs]) +
        (if cur0 \<noteq> None \<and> \<not> below_threshold t rc then 1 else 0)" .
    have Qlast: "?Q (xs @ [x]) (length xs) \<longleftrightarrow>
        below_threshold t (snd (last xs)) \<and> \<not> below_threshold t rc"
      using lastx x by simp
    have "filter (?Q (xs @ [x])) [1..<length (xs @ [x])] =
        filter (?Q xs) [1..<length xs] @ filter (?Q (xs @ [x])) [length xs]"
      unfolding upt filter_append same ..
    then have "length (filter (?Q (xs @ [x])) [1..<length (xs @ [x])]) =
        length (filter (?Q xs) [1..<length xs]) +
        (if below_threshold t (snd (last xs)) \<and> \<not> below_threshold t rc then 1 else 0)"
      using Qlast by simp
    then show ?thesis
      using len cur0 False by simp
  qed
qed


lemma find_rating_plateaus_Inr:
  assumes "find_rating_plateaus df w t = Inr (df', ps)"
  shows "\<exists>rc. rolling_mean w (map rating_change (rows df)) = Inr rc \<and>
           length rc = length (rows df) \<and>
           df' = df\<lparr>rolling_change := Some rc\<rparr> \<and>
           foldl (plateau_step t) (None, []) (zip (rows df) rc) =
             (fst (foldl (plateau_step t) (None, []) (zip (rows df) rc)), ps)"
proof (cases "rolling_mean w (map rating_change (rows df))")
  case (Inl e)
  then show ?thesis using assms by (simp add: find_rating_plateaus_def)
next
  case (Inr rc)
  then have "length rc = length (rows df)"
    using length_rolling_mean [of w "map rating_change (rows df)" rc] by simp
  then show ?thesis
    using assms Inr by (auto simp: find_rating_plateaus_def Let_def)
qed

lemma example_rolling:
  "rolling_mean 1 (map rating_change (rows example_frame)) = Inr [None, Some 1, Some 9, Some 1]"
  by (simp add: example_frame_def rolling_mean_def window_mean_def window_values_def upt_rec)

lemma example_run:
  "find_rating_plateaus example_frame 1 3 =
     Inr (example_frame\<lparr>rolling_change := Some [None, Some 1, Some 9, Some 1]\<rparr>, [example_plateau])"
  unfolding find_rating_plateaus_def example_rolling
  by (simp add: example_frame_def example_plateau_def plateau_step_def below_threshold_def
      open_plateau_def closed_plateau_def)

text \<open>
  C3. When the detector returns, each plateau of its output was anchored at a row \<open>i\<close>
  and closed at a later row \<open>j\<close> of the series: every row from \<open>i\<close> to \<open>j - 1\<close> has
  a defined rolling change below the threshold in magnitude, the rolling change of
  row \<open>j\<close> is undefined or at least the threshold in magnitude, and the end fields of the
  plateau are the rating, the game number and the date of row \<open>j\<close>. The output has
  exactly one plateau for each row that breaks a run, so that a plateau still open after
  the last row is not emitted.
\<close>

theorem open_plateau_not_emitted:
  assumes "find_rating_plateaus df window threshold = Inr (df', ps)"
  shows "\<exists>rc. rolling_mean window (map rating_change (rows df)) = Inr rc \<and>
           rolling_change df' = Some rc \<and> length rc = length (rows df) \<and>
           (\<forall>p\<in>set ps. \<exists>i j. i < j \<and> j < length (rows df) \<and>
              (\<forall>k. i \<le> k \<and> k < j \<longrightarrow> (\<exists>v. rc ! k = Some v \<and> \<bar>v\<bar> < threshold)) \<and>
              (rc ! j = None \<or> (\<exists>v. rc ! j = Some v \<and> threshold \<le> \<bar>v\<bar>)) \<and>
              p = closed_plateau (open_plateau (rows df ! i)) (rows df ! j) \<and>
              end_rating p = rating (rows df ! j) \<and>
              end_game_number p = games_played (rows df ! j) \<and>
              end_date p = date (rows df ! j)) \<and>
           length ps =
             length (filter (\<lambda>j. below_threshold threshold (rc ! (j - 1)) \<and>
                                  \<not> below_threshold threshold (rc ! j))
                       [1..<length (rows df)])"
proof -
  from find_rating_plateaus_Inr [OF assms] obtain rc where
    rc: "rolling_mean window (map rating_change (rows df)) = Inr rc"
    and len: "length rc = length (rows df)"
    and df': "df' = df\<lparr>rolling_change := Some rc\<rparr>"
    and run: "foldl (plateau_step threshold) (None, []) (zip (rows df) rc) =
             (fst (foldl (plateau_step threshold) (None, []) (zip (rows df) rc)), ps)"
    by blast
  let ?xs = "zip (rows df) rc"
  have lenxs: "length ?xs = length (rows df)" using len by simp
  have below: "below_threshold threshold (rc ! k) \<longleftrightarrow> (\<exists>v. rc ! k = Some v \<and> \<bar>v\<bar> < threshold)" for k
    by (cases "rc ! k") (simp_all add: below_threshold_def)
  have nbelow: "\<not> below_threshold threshold (rc ! k) \<longleftrightarrow>
      (rc ! k = None \<or> (\<exists>v. rc ! k = Some v \<and> threshold \<le> \<bar>v\<bar>))" for k
    by (cases "rc ! k") (auto simp: below_threshold_def)
  have emitted: "\<exists>i j. i < j \<and> j < length (rows df) \<and>
              (\<forall>k. i \<le> k \<and> k < j \<longrightarrow> (\<exists>v. rc ! k = Some v \<and> \<bar>v\<bar> < threshold)) \<and>
              (rc ! j = None \<or> (\<exists>v. rc ! j = Some v \<and> threshold \<le> \<bar>v\<bar>)) \<and>
              p = closed_plateau (open_plateau (rows df ! i)) (rows df ! j) \<and>
              end_rating p = rating (rows df ! j) \<and>
              end_game_number p = games_played (rows df ! j) \<and>
              end_date p = date (rows df ! j)" if "p \<in> set ps" for p
  proof -
    from plateau_loop_emitted [OF run] that obtain i j where ij: "i < j" "j < length ?xs"
      "\<forall>k. i \<le> k \<and> k < j \<longrightarrow> below_threshold threshold (snd (?xs ! k))"
      "\<not> below_threshold threshold (snd (?xs ! j))"
      "p = closed_plateau (open_plateau (fst (?xs ! i))) (fst (?xs ! j))" by blast
    have j: "j < length (rows df)" "j < length rc" "i < length (rows df)" "i < length rc"
      using ij(1,2) len by simp_all
    have "\<forall>k. i \<le> k \<and> k < j \<longrightarrow> (\<exists>v. rc ! k = Some v \<and> \<bar>v\<bar> < threshold)"
    proof (intro allI impI)
      fix k assume k: "i \<le> k \<and> k < j"
      then have "k < length (rows df)" "k < length rc" using j by simp_all
      then have "snd (?xs ! k) = rc ! k" by simp
      then show "\<exists>v. rc ! k = Some v \<and> \<bar>v\<bar> < threshold"
        using ij(3) k below by metis
    qed
    moreover have "rc ! j = None \<or> (\<exists>v. rc ! j = Some v \<and> threshold \<le> \<bar>v\<bar>)"
      using ij(4) j nbelow by simp
    moreover have "p = closed_plateau (open_plateau (rows df ! i)) (rows df ! j)"
      using ij(5) j by simp
    ultimately show ?thesis
      using ij(1) j(1) by (intro exI [of _ i] exI [of _ j]) (simp add: closed_plateau_def)
  qed
  have same: "filter (\<lambda>j. below_threshold threshold (snd (?xs ! (j - 1))) \<and>
                           \<not> below_threshold threshold (snd (?xs ! j))) [1..<length ?xs] =
        filter (\<lambda>j. below_threshold threshold (rc ! (j - 1)) \<and>
                           \<not> below_threshold threshold (rc ! j)) [1..<length (rows df)]"
    unfolding lenxs by (rule filter_cong) (auto simp: len)
  have count: "length ps = length (filter (\<lambda>j. below_threshold threshold (rc ! (j - 1)) \<and>
                                  \<not> below_threshold threshold (rc ! j))
                       [1..<length (rows df)])"
    using plateau_loop_count [OF run] unfolding same .
  show ?thesis
    using rc len emitted count by (intro exI [of _ rc]) (simp add: df')
qed

theorem open_plateau_not_emitted_witness:
  "find_rating_plateaus example_frame 1 3 =
     Inr (example_frame\<lparr>rolling_change := Some [None, Some 1, Some 9, Some 1]\<rparr>, [example_plateau]) \<and>
   (\<exists>rc. rolling_mean 1 (map rating_change (rows example_frame)) = Inr rc \<and>
      rolling_change (example_frame\<lparr>rolling_change := Some [None, Some 1, Some 9, Some 1]\<rparr>) = Some rc \<and>
      length rc = length (rows example_frame) \<and>
      (\<forall>p\<in>set [example_plateau]. \<exists>i j. i < j \<and> j < length (rows example_frame) \<and>
         (\<forall>k. i \<le> k \<and> k < j \<longrightarrow> (\<exists>v. rc ! k = Some v \<and> \<bar>v\<bar> < 3)) \<and>
         (rc ! j = None \<or> (\<exists>v. rc ! j = Some v \<and> 3 \<le> \<bar>v\<bar>)) \<and>
         p = closed_plateau (open_plateau (rows example_frame ! i)) (rows example_frame ! j) \<and>
         end_rating p = rating (rows example_frame ! j) \<and>
         end_game_number p = games_played (rows example_frame ! j) \<and>
         end_date p = date (rows example_frame ! j)) \<and>
      length [example_plateau] =
        length (filter (\<lambda>j. below_threshold 3 (rc ! (j - 1)) \<and>
                             \<not> below_threshold 3 (rc ! j))
                  [1..<length (rows example_frame)]))"
  by (rule conjI [OF example_run open_plateau_not_emitted [OF example_run]])

subsection \<open>The output of the plateau detector\<close>

text \<open>
  C9. On a frame whose column \<^verbatim>\<open>games_played\<close> numbers the rows 0, 1, 2, ... (as line
  123 sets it), every plateau of the output starts at a game number strictly less than
  the one it ends at, and spans at least one game.
\<close>

theorem plateau_span_positive:
  assumes "find_rating_plateaus df window threshold = Inr (df', ps)"
    and "\<forall>i<length (rows df). games_played (rows df ! i) = int i"
  shows "\<forall>p\<in>set ps. start_game_number p < end_game_number p \<and> 1 \<le> games_span p"
proof
  fix p assume p: "p \<in> set ps"
  from find_rating_plateaus_Inr [OF assms(1)] obtain rc where
    len: "length rc = length (rows df)"
    and run: "foldl (plateau_step threshold) (None, []) (zip (rows df) rc) =
             (fst (foldl (plateau_step threshold) (None, []) (zip (rows df) rc)), ps)"
    by blast
  let ?xs = "zip (rows df) rc"
  from plateau_loop_emitted [OF run] p obtain i j where ij: "i < j" "j < length ?xs"
    "p = closed_plateau (open_plateau (fst (?xs ! i))) (fst (?xs ! j))" by blast
  have j: "j < length (rows df)" "i < length (rows df)" "j < length rc" "i < length rc"
    using ij(1,2) len by simp_all
  then have "p = closed_plateau (open_plateau (rows df ! i)) (rows df ! j)"
    using ij(3) by simp
  moreover have "games_played (rows df ! i) = int i" "games_played (rows df ! j) = int j"
    using assms(2) j by simp_all
  ultimately show "start_game_number p < end_game_number p \<and> 1 \<le> games_span p"
    using ij(1) by (simp add: closed_plateau_def open_plateau_def)
qed

lemma example_games_played:
  "\<forall>i<length (rows example_frame). games_played (rows example_frame ! i) = int i"
  by (simp add: example_frame_def All_less_Suc nth_Cons')

theorem plateau_span_positive_witness:
  "find_rating_plateaus example_frame 1 3 =
     Inr (example_frame\<lparr>rolling_change := Some [None, Some 1, Some 9, Some 1]\<rparr>,
          [example_plateau]) \<and>
   map games_played (rows example_frame) = [0, 1, 2, 3] \<and>
   start_game_number example_plateau < end_game_number example_plateau \<and>
   1 \<le> games_span example_plateau"
proof -
  have "map games_played (rows example_frame) = [0, 1, 2, 3]"
    by (simp add: example_frame_def)
  moreover have "start_game_number example_plateau < end_game_number example_plateau \<and>
      1 \<le> games_span example_plateau"
    using plateau_span_positive [OF example_run example_games_played] by simp
  ultimately show ?thesis
    using example_run by simp
qed

text \<open>Line 123 gives the frames of \<open>derive_columns\<close> that numbering.\<close>

lemma derive_columns_games_played:
  assumes "derive_columns h = Inr df"
  shows "length (rows df) = length h \<and> (\<forall>i<length (rows df). games_played (rows df ! i) = int i)"
  using assms
  by (auto simp: derive_columns_def Let_def split: sum.splits)

text \<open>
  C8. The detector run again on the frame that its first run left, with the same window
  and threshold, leaves the same frame and returns the same plateaus.
\<close>

theorem detector_idempotent:
  assumes "find_rating_plateaus df window threshold = Inr (df', ps)"
  shows "find_rating_plateaus df' window threshold = Inr (df', ps)"
proof -
  from find_rating_plateaus_Inr [OF assms] obtain rc where
    rc: "rolling_mean window (map rating_change (rows df)) = Inr rc"
    and df': "df' = df\<lparr>rolling_change := Some rc\<rparr>" by blast
  have "find_rating_plateaus df window threshold =
      Inr (df', snd (foldl (plateau_step threshold) (None, []) (zip (rows df) rc)))"
    using rc df' by (simp add: find_rating_plateaus_def)
  then have ps: "ps = snd (foldl (plateau_step threshold) (None, []) (zip (rows df) rc))"
    using assms by simp
  show ?thesis
    using rc ps by (simp add: find_rating_plateaus_def df')
qed

theorem detector_idempotent_witness:
  "find_rating_plateaus example_frame 1 3 =
     Inr (example_frame\<lparr>rolling_change := Some [None, Some 1, Some 9, Some 1]\<rparr>,
          [example_plateau]) \<and>
   find_rating_plateaus (example_frame\<lparr>rolling_change := Some [None, Some 1, Some 9, Some 1]\<rparr>)
       1 3 =
     Inr (example_frame\<lparr>rolling_change := Some [None, Some 1, Some 9, Some 1]\<rparr>,
          [example_plateau])"
  by (intro conjI example_run detector_idempotent [OF example_run])

text \<open>
  C10. When the detector returns, the caller's frame differs from the frame passed in
  at most in the column \<^verbatim>\<open>rolling_change\<close>, which now holds the rolling mean of the
  rating changes over the detector's window, whether the column was there before or not;
  the columns date, rating, time\_control, rating\_change, games\_played, rolling\_rating
  and rating\_change\_rate are the same.
\<close>

theorem detector_writes_rolling_change:
  assumes "find_rating_plateaus df window threshold = Inr (df', ps)"
  shows "\<exists>rc. rolling_mean window (map rating_change (rows df)) = Inr rc \<and>
           rolling_change df' = Some rc \<and>
           df' = df\<lparr>rolling_change := Some rc\<rparr> \<and>
           rows df' = rows df \<and>
           map date (rows df') = map date (rows df) \<and>
           map rating (rows df') = map rating (rows df) \<and>
           map time_control (rows df') = map time_control (rows df) \<and>
           map rating_change (rows df') = map rating_change (rows df) \<and>
           map games_played (rows df') = map games_played (rows df) \<and>
           map rolling_rating (rows df') = map rolling_rating (rows df) \<and>
           map rating_change_rate (rows df') = map rating_change_rate (rows df)"
proof -
  from find_rating_plateaus_Inr [OF assms] obtain rc where
    rc: "rolling_mean window (map rating_change (rows df)) = Inr rc"
    and df': "df' = df\<lparr>rolling_change := Some rc\<rparr>" by blast
  show ?thesis by (intro exI [of _ rc]) (simp add: df' rc)
qed

theorem detector_writes_rolling_change_witness:
  "find_rating_plateaus example_frame 1 3 =
     Inr (example_frame\<lparr>rolling_change := Some [None, Some 1, Some 9, Some 1]\<rparr>,
          [example_plateau]) \<and>
   rolling_change example_frame = None \<and>
   (\<exists>rc. rolling_mean 1 (map rating_change (rows example_frame)) = Inr rc \<and>
      rolling_change (example_frame\<lparr>rolling_change := Some [None, Some 1, Some 9, Some 1]\<rparr>)
        = Some rc \<and>
      example_frame\<lparr>rolling_change := Some [None, Some 1, Some 9, Some 1]\<rparr> =
        example_frame\<lparr>rolling_change := Some rc\<rparr> \<and>
      rows (example_frame\<lparr>rolling_change := Some [None, Some 1, Some 9, Some 1]\<rparr>) =
        rows example_frame \<and>
      map date (rows (example_frame\<lparr>rolling_change := Some [None, Some 1, Some 9, Some 1]\<rparr>))
        = map date (rows example_frame) \<and>
      map rating (rows (example_frame\<lparr>rolling_change := Some [None, Some 1, Some 9, Some 1]\<rparr>))
        = map rating (rows example_frame) \<and>
      map time_control
        (rows (example_frame\<lparr>rolling_change := Some [None, Some 1, Some 9, Some 1]\<rparr>))
        = map time_control (rows example_frame) \<and>
      map rating_change
        (rows (example_frame\<lparr>rolling_change := Some [None, Some 1, Some 9, Some 1]\<rparr>))
        = map rating_change (rows example_frame) \<and>
      map games_played
        (rows (example_frame\<lparr>rolling_change := Some [None, Some 1, Some 9, Some 1]\<rparr>))
        = map games_played (rows example_frame) \<and>
      map rolling_rating
        (rows (example_frame\<lparr>rolling_change := Some [None, Some 1, Some 9, Some 1]\<rparr>))
        = map rolling_rating (rows example_frame) \<and>
      map rating_change_rate
        (rows (example_frame\<lparr>rolling_change := Some [None, Some 1, Some 9, Some 1]\<rparr>))
        = map rating_change_rate (rows example_frame))"
proof -
  have "rolling_change example_frame = None"
    by (simp add: example_frame_def)
  then show ?thesis
    by (intro conjI example_run detector_writes_rolling_change [OF example_run])
qed

subsection \<open>The progress metrics\<close>

text \<open>
  C6. On a frame with at least one row the metrics are returned; the total gain is the
  final rating minus the initial rating, which are the ratings of the last and of the
  first row, and the average gain per game is the total gain divided by the number of
  rows \<open>N\<close>, not by \<open>N - 1\<close>.
\<close>

theorem metrics_gain:
  assumes "rows df \<noteq> []"
  shows "\<exists>m. calculate_progress_metrics df = Inr m \<and>
           total_games m = length (rows df) \<and>
           initial_rating m = rating (hd (rows df)) \<and>
           final_rating m = rating (last (rows df)) \<and>
           total_gain m = final_rating m - initial_rating m \<and>
           average_gain_per_game m = of_int (total_gain m) / of_nat (total_games m)"
  using assms by (simp add: calculate_progress_metrics_def Let_def hd_map last_map)

lemma example_rows: "rows example_frame \<noteq> []"
  by (simp add: example_frame_def)

theorem metrics_gain_witness:
  "rows example_frame \<noteq> [] \<and>
   (\<exists>m. calculate_progress_metrics example_frame = Inr m \<and>
      total_games m = length (rows example_frame) \<and>
      initial_rating m = rating (hd (rows example_frame)) \<and>
      final_rating m = rating (last (rows example_frame)) \<and>
      total_gain m = final_rating m - initial_rating m \<and>
      average_gain_per_game m = of_int (total_gain m) / of_nat (total_games m))"
  by (intro conjI example_rows metrics_gain [OF example_rows])

text \<open>
  On the four rows of the example the gain 11 is divided by 4; without rows the function
  raises.
\<close>

lemma example_metrics:
  "\<exists>m. calculate_progress_metrics example_frame = Inr m \<and> total_games m = 4 \<and>
     total_gain m = 11 \<and> average_gain_per_game m = 11 / 4"
  by (simp add: calculate_progress_metrics_def example_frame_def)

lemma metrics_empty: "rows df = [] \<Longrightarrow> calculate_progress_metrics df = Inl IndexError"
  by (simp add: calculate_progress_metrics_def)

subsection \<open>Windows that are not positive, and short series\<close>

text \<open>A window longer than the column, or of no row, never has enough observations.\<close>

lemma window_mean_short:
  assumes "i < length xs" and "w = 0 \<or> length xs < w"
  shows "window_mean w xs i = None"
proof -
  have "length (defined_values ys) \<le> length ys" for ys :: "rat option list"
    by (induction ys rule: defined_values.induct) simp_all
  then have "length (defined_values (window_values w xs i)) \<le> length (window_values w xs i)" .
  also have "\<dots> = min w (Suc i)" using assms(1) by (rule length_window_values)
  finally show ?thesis
    using assms unfolding window_mean_None_iff by auto
qed

lemma rolling_mean_short:
  assumes "window = 0 \<or> (0 < window \<and> int (length xs) < window)"
  shows "rolling_mean window xs = Inr (replicate (length xs) None)"
proof -
  have "nat window = 0 \<or> length xs < nat window" using assms by auto
  then have "map (window_mean (nat window) xs) [0..<length xs] = replicate (length xs) None"
    by (intro nth_equalityI) (simp_all add: window_mean_short)
  then show ?thesis
    using assms by (auto simp: rolling_mean_def)
qed

text \<open>
  C7, as the claim states it, fails for the window 0: the rolling mean is computed, all
  of it NaN, and the detector returns an empty list of plateaus.
\<close>

theorem window_zero_accepted:
  "rolling_mean 0 [None, Some 1, Some 9, Some 1] = Inr [None, None, None, None] \<and>
   find_rating_plateaus example_frame 0 3 =
     Inr (example_frame\<lparr>rolling_change := Some [None, None, None, None]\<rparr>, [])"
proof -
  have r: "rolling_mean 0 [None, Some 1, Some 9, Some 1] = Inr [None, None, None, None]"
    by (simp add: rolling_mean_def window_mean_def window_values_def upt_rec)
  have "map rating_change (rows example_frame) = [None, Some 1, Some 9, Some 1]"
    by (simp add: example_frame_def)
  then have "find_rating_plateaus example_frame 0 3 =
     Inr (example_frame\<lparr>rolling_change := Some [None, None, None, None]\<rparr>, [])"
    unfolding find_rating_plateaus_def
    by (simp add: r example_frame_def plateau_step_def below_threshold_def)
  then show ?thesis using r by simp
qed

text \<open>
  C7, amended. For every negative window the rolling mean fails with the library's
  \<^verbatim>\<open>ValueError\<close>, and so does the detector, before it has written a column. For the
  window 0 and every positive window the rolling mean succeeds, with one value for
  each row; for the window 0, and for every series shorter than a positive window,
  every value of it is undefined.
\<close>

theorem rolling_window_cases:
  "(window < 0 \<longrightarrow> rolling_mean window xs = Inl ValueError \<and>
      find_rating_plateaus df window threshold = Inl ValueError) \<and>
   (0 \<le> window \<longrightarrow> (\<exists>ys. rolling_mean window xs = Inr ys \<and> length ys = length xs)) \<and>
   (window = 0 \<or> (0 < window \<and> int (length xs) < window) \<longrightarrow>
      rolling_mean window xs = Inr (replicate (length xs) None))"
proof (intro conjI impI)
  assume "window < 0"
  then show "rolling_mean window xs = Inl ValueError"
    and "find_rating_plateaus df window threshold = Inl ValueError"
    by (simp_all add: rolling_mean_def find_rating_plateaus_def)
next
  assume "0 \<le> window"
  then show "\<exists>ys. rolling_mean window xs = Inr ys \<and> length ys = length xs"
    by (simp add: rolling_mean_def)
next
  assume "window = 0 \<or> (0 < window \<and> int (length xs) < window)"
  then show "rolling_mean window xs = Inr (replicate (length xs) None)"
    by (rule rolling_mean_short)
qed

theorem rolling_window_cases_witness:
  "((-1::int) < 0 \<and> rolling_mean (-1) [None, Some 1, Some 9] = Inl ValueError \<and>
      find_rating_plateaus example_frame (-1) 3 = Inl ValueError) \<and>
   rolling_mean 0 [None, Some 1, Some 9] = Inr (replicate (length [None, Some 1, Some (9::rat)]) None) \<and>
   ((0::int) < 5 \<and> int (length [None, Some 1, Some (9::rat)]) < 5 \<and>
      rolling_mean 5 [None, Some 1, Some 9] = Inr (replicate (length [None, Some 1, Some (9::rat)]) None))"
  using rolling_window_cases [of "-1" "[None, Some 1, Some 9]" example_frame 3]
    rolling_window_cases [of 0 "[None, Some 1, Some 9]" example_frame 3]
    rolling_window_cases [of 5 "[None, Some 1, Some 9]" example_frame 3]
  by simp

subsection \<open>The side whose rating is taken\<close>

text \<open>
  A game whose end time cannot be converted ends its archive: the games before it keep
  their entries, the games after it get none.
\<close>

lemma archive_history_raise:
  assumes "rating_entry fromtimestamp uname g = Inl e"
  shows "archive_history fromtimestamp uname (gs @ g # gs') =
         archive_history fromtimestamp uname gs"
  using assms by (induction gs) (simp_all split: sum.splits)

lemma rating_entry_raise:
  "fromtimestamp (end_time g) = Inl e \<Longrightarrow> rating_entry fromtimestamp uname g = Inl e"
  by (simp add: rating_entry_def)

text \<open>
  C1, as the claim states it, fails: for a game in which neither user name is the
  queried one, no error is signalled and the entry of the rating history holds the
  rating of the black side. (The conversion of the end time is here the one that keeps
  the number of seconds.)
\<close>

theorem neither_side_takes_black:
  "lower ''alice'' \<noteq> lower ''carol'' \<and> lower ''bob'' \<noteq> lower ''carol'' \<and>
   rating_history Inr ''carol''
     [[\<lparr>end_time = 100, white = \<lparr>username = ''alice'', rating = 1500\<rparr>,
        black = \<lparr>username = ''bob'', rating = 1600\<rparr>, time_control = ''600''\<rparr>]] =
     [\<lparr>date = 100, rating = 1600, time_control = ''600''\<rparr>]"
  by (simp add: rating_history_def rating_entry_def lower_def lower_char_def)

text \<open>
  C1, amended. For every game whose end time line 91 converts, an entry is made and no
  error is signalled: its rating is the white side's when the white user name equals
  the queried one without regard to case, and the black side's otherwise, also when
  neither name matches. So when exactly one side matches, it is that side's rating.
\<close>

theorem rating_entry_side:
  assumes "fromtimestamp (end_time g) = Inr d"
  shows "\<exists>entry. rating_entry fromtimestamp uname g = Inr entry \<and>
           (lower (username (white g)) = lower uname \<longrightarrow>
              rating entry = player.rating (white g)) \<and>
           (lower (username (white g)) \<noteq> lower uname \<longrightarrow>
              rating entry = player.rating (black g))"
proof (cases "lower (username (white g)) = lower uname")
  case True
  then show ?thesis
    using assms by (simp add: rating_entry_def)
next
  case False
  then show ?thesis
    using assms by (simp add: rating_entry_def)
qed

theorem rating_entry_side_witness:
  "(Inr :: int \<Rightarrow> error + int) 100 = Inr 100 \<and>
   lower ''magnuscarlsen'' = lower ''MagnusCarlsen'' \<and>
   (\<exists>entry. rating_entry Inr ''MagnusCarlsen''
       \<lparr>end_time = 100, white = \<lparr>username = ''magnuscarlsen'', rating = 2800\<rparr>,
         black = \<lparr>username = ''bob'', rating = 1600\<rparr>, time_control = ''600''\<rparr> = Inr entry \<and>
      rating entry = 2800) \<and>
   lower ''bob'' \<noteq> lower ''MagnusCarlsen'' \<and>
   (\<exists>entry. rating_entry Inr ''MagnusCarlsen''
       \<lparr>end_time = 100, white = \<lparr>username = ''bob'', rating = 1600\<rparr>,
         black = \<lparr>username = ''Magnuscarlsen'', rating = 2801\<rparr>, time_control = ''600''\<rparr> = Inr entry \<and>
      rating entry = 2801)"
proof -
  let ?g1 = "\<lparr>end_time = 100, white = \<lparr>username = ''magnuscarlsen'', rating = 2800\<rparr>,
         black = \<lparr>username = ''bob'', rating = 1600\<rparr>, time_control = ''600''\<rparr>"
  let ?g2 = "\<lparr>end_time = 100, white = \<lparr>username = ''bob'', rating = 1600\<rparr>,
         black = \<lparr>username = ''Magnuscarlsen'', rating = 2801\<rparr>, time_control = ''600''\<rparr>"
  have a: "lower ''magnuscarlsen'' = lower ''MagnusCarlsen''"
    and b: "lower ''bob'' \<noteq> lower ''MagnusCarlsen''"
    by (simp_all add: lower_def lower_char_def char_of_def bit_0)
  have t1: "(Inr :: int \<Rightarrow> error + int) (end_time ?g1) = Inr 100"
    and t2: "(Inr :: int \<Rightarrow> error + int) (end_time ?g2) = Inr 100"
    by simp_all
  have g1: "\<exists>entry. rating_entry Inr ''MagnusCarlsen'' ?g1 = Inr entry \<and> rating entry = 2800"
    using a rating_entry_side [of Inr ?g1 100 "''MagnusCarlsen''", OF t1] by simp
  have g2: "\<exists>entry. rating_entry Inr ''MagnusCarlsen'' ?g2 = Inr entry \<and> rating entry = 2801"
    using b rating_entry_side [of Inr ?g2 100 "''MagnusCarlsen''", OF t2] by simp
  show ?thesis
    by (intro conjI refl a b g1 g2)
qed

subsection \<open>The scenario with seven records\<close>

lemma scenario_rolling_change:
  "rolling_mean 3 [None, Some 10, Some (- 5), Some 15, Some 2, Some (- 1), Some 2] =
     Inr [None, None, None, Some (20 / 3), Some 4, Some (16 / 3), Some 1]"
  by (simp add: rolling_mean_def window_mean_def window_values_def upt_rec)

text \<open>
  C2. For the ratings 1000, 1010, 1005, 1020, 1022, 1021, 1023, with any dates and time
  controls, the rating changes are NaN, 10, -5, 15, 2, -1, 2; the rolling changes over
  the window 3 are NaN in the rows 0 to 2 and 20/3, 4, 16/3, 1 in the rows 3 to 6; with
  the threshold 3 only the last row is below the threshold, so that a plateau is opened
  at the last row and never closed: the detector returns no plateau.
\<close>

theorem scenario_window_3_threshold_3:
  "\<exists>df df'.
     derive_columns
       [\<lparr>date = d0, rating = 1000, time_control = tc0\<rparr>,
        \<lparr>date = d1, rating = 1010, time_control = tc1\<rparr>,
        \<lparr>date = d2, rating = 1005, time_control = tc2\<rparr>,
        \<lparr>date = d3, rating = 1020, time_control = tc3\<rparr>,
        \<lparr>date = d4, rating = 1022, time_control = tc4\<rparr>,
        \<lparr>date = d5, rating = 1021, time_control = tc5\<rparr>,
        \<lparr>date = d6, rating = 1023, time_control = tc6\<rparr>] = Inr df \<and>
     map rating (rows df) = [1000, 1010, 1005, 1020, 1022, 1021, 1023] \<and>
     map rating_change (rows df) =
       [None, Some 10, Some (- 5), Some 15, Some 2, Some (- 1), Some 2] \<and>
     map games_played (rows df) = [0, 1, 2, 3, 4, 5, 6] \<and>
     find_rating_plateaus df 3 3 = Inr (df', []) \<and>
     rolling_change df' =
       Some [None, None, None, Some (20 / 3), Some 4, Some (16 / 3), Some 1] \<and>
     map (below_threshold 3)
       [None, None, None, Some (20 / 3), Some 4, Some (16 / 3), Some 1] =
       [False, False, False, False, False, False, True]"
proof -
  let ?h = "[\<lparr>date = d0, rating = 1000, time_control = tc0\<rparr>,
        \<lparr>date = d1, rating = 1010, time_control = tc1\<rparr>,
        \<lparr>date = d2, rating = 1005, time_control = tc2\<rparr>,
        \<lparr>date = d3, rating = 1020, time_control = tc3\<rparr>,
        \<lparr>date = d4, rating = 1022, time_control = tc4\<rparr>,
        \<lparr>date = d5, rating = 1021, time_control = tc5\<rparr>,
        \<lparr>date = d6, rating = 1023, time_control = tc6\<rparr>]"
  let ?rows = "[\<lparr>date = d0, rating = 1000, time_control = tc0, rating_change = None,
          games_played = 0, rolling_rating = None, rating_change_rate = None\<rparr>,
        \<lparr>date = d1, rating = 1010, time_control = tc1, rating_change = Some 10,
          games_played = 1, rolling_rating = None, rating_change_rate = None\<rparr>,
        \<lparr>date = d2, rating = 1005, time_control = tc2, rating_change = Some (- 5),
          games_played = 2, rolling_rating = None, rating_change_rate = None\<rparr>,
        \<lparr>date = d3, rating = 1020, time_control = tc3, rating_change = Some 15,
          games_played = 3, rolling_rating = None, rating_change_rate = None\<rparr>,
        \<lparr>date = d4, rating = 1022, time_control = tc4, rating_change = Some 2,
          games_played = 4, rolling_rating = None, rating_change_rate = None\<rparr>,
        \<lparr>date = d5, rating = 1021, time_control = tc5, rating_change = Some (- 1),
          games_played = 5, rolling_rating = None, rating_change_rate = None\<rparr>,
        \<lparr>date = d6, rating = 1023, time_control = tc6, rating_change = Some 2,
          games_played = 6, rolling_rating = None, rating_change_rate = None\<rparr>]"
  let ?df = "\<lparr>rows = ?rows, rolling_change = None\<rparr>"
  let ?rc = "[None, None, None, Some (20 / 3), Some 4, Some (16 / 3), Some (1::rat)]"
  have ratings: "map rating ?h = [1000, 1010, 1005, 1020, 1022, 1021, 1023]" by simp
  have changes: "diff [1000, 1010, 1005, 1020, 1022, 1021, 1023] =
      [None, Some 10, Some (- 5), Some 15, Some 2, Some (- 1), Some 2]" by simp
  have r1: "rolling_mean 20 (map (\<lambda>r. Some (rat_of_int r)) [1000, 1010, 1005, 1020, 1022, 1021, 1023])
      = Inr [None, None, None, None, None, None, None]"
    using rolling_mean_short [of 20 "map (\<lambda>r. Some (rat_of_int r)) [1000, 1010, 1005, 1020, 1022, 1021, 1023]"]
    by simp
  have r2: "rolling_mean 20 [None, Some 10, Some (- 5), Some 15, Some 2, Some (- 1), Some 2]
      = Inr [None, None, None, None, None, None, None]"
    using rolling_mean_short [of 20 "[None, Some 10, Some (- 5), Some 15, Some 2, Some (- 1), Some 2]"]
    by simp
  have derive: "derive_columns ?h = Inr ?df"
    unfolding derive_columns_def Let_def ratings changes r1 r2
    by (simp add: upt_rec numeral_eq_Suc)
  have "map rating_change ?rows = [None, Some 10, Some (- 5), Some 15, Some 2, Some (- 1), Some 2]"
    by simp
  then have find: "find_rating_plateaus ?df 3 3 = Inr (?df\<lparr>rolling_change := Some ?rc\<rparr>, [])"
    unfolding find_rating_plateaus_def
    by (simp add: scenario_rolling_change plateau_step_def below_threshold_def open_plateau_def)
  have cls: "map (below_threshold 3) ?rc = [False, False, False, False, False, False, True]"
    by (simp add: below_threshold_def)
  show ?thesis
    by (intro exI [of _ ?df] exI [of _ "?df\<lparr>rolling_change := Some ?rc\<rparr>"] conjI derive find cls)
      simp_all
qed

end
